theory Spec2Isabelle
  imports Main
begin

section \<open>bt-presence: the btPresence class of src/index.ts\<close>

text \<open>
  The class keeps its fields in one object and reacts to calls of its public methods and
  to callbacks of the Node.js event loop (child-process events and timeouts). The model
  is an explicit state: the fields of the object, extended by the part of the host the
  class acts on (spawned child processes and their listeners, armed timeouts, emitted
  events, signals sent). Every method and every listener is a function on that state.
\<close>

subsection \<open>Data\<close>

text \<open>
  A value found at run time in a field typed \<open>number\<close>: \<open>undefined\<close>, \<open>NaN\<close>, or a
  number. Numbers are integers here, the values \<open>l2ping -c\<close> and \<open>l2ping -t\<close> take.
\<close>

datatype jsnumber = Undefined | NaN | Num int

text \<open>The truthiness test of \<open>x ? a : b\<close>: \<open>undefined\<close>, \<open>NaN\<close> and \<open>0\<close> are falsy.\<close>

fun truthy :: "jsnumber \<Rightarrow> bool" where
  "truthy Undefined = False"
| "truthy NaN = False"
| "truthy (Num n) = (n \<noteq> 0)"

record L2pingOptions =
  count :: jsnumber
  timeoutSecs :: jsnumber

record PingResult =
  address :: string
  isPresent :: bool

text \<open>
  A \<open>ChildProcess\<close> handle as the class uses it: its \<open>pid\<close>, its \<open>killed\<close> flag, and
  whether the process has exited. Node marks the handle when the process exits (it sets
  \<open>exitCode\<close> and drops its reference to the process), before the streams close.
\<close>

record ChildProcess =
  pid :: nat
  killed :: bool
  exited :: bool

text \<open>The three events the class emits, with their argument.\<close>

datatype event = PingResultEv PingResult | Present string | NotPresent string

text \<open>
  The functions the class passes around: \<open>next\<close> of \<open>checkForL2Ping\<close> and \<open>callback\<close>
  of \<open>pingBluetoothDevice\<close>. Both are tested for truthiness before the call, so the
  absent function is a value too.
\<close>

datatype continuation = NoNext | ScanForAllDevices

datatype callback = NoCallback | OnPingResult

text \<open>
  What \<open>spawn\<close> was called with, and the listeners the class registered on the process:
  those of \<open>checkForL2Ping\<close> (error, exit) close over \<open>next\<close>, those of
  \<open>pingBluetoothDevice\<close> (error, stdout data, stderr data, close) over \<open>macAddress\<close>
  and \<open>callback\<close>.
\<close>

datatype command = Which_l2ping | L2ping jsnumber jsnumber string

datatype listeners = CheckListeners continuation | PingListeners string callback

text \<open>An exception thrown inside a listener: nothing catches it.\<close>

datatype fatal = LocateError | RunError | NotInstalled

record btPresence =
  btDevicesToPing :: "string list"
  btDevicesPresent :: "string list"
  scanIntervalSecs :: int
  isL2PingAvailable :: bool
  timer :: "nat option"
  reportFirstResult :: bool
  runningPings :: "ChildProcess list"
  l2pingOptions :: L2pingOptions

text \<open>
  The host: \<open>emitted\<close> lists the events emitted so far, each with the Presence Set
  (\<open>btDevicesPresent\<close>) its listeners find at that moment; \<open>children\<close> the spawned
  processes by pid; \<open>pendingTimers\<close> the armed timeouts (handle, delay in ms), all of
  which run \<open>scanForAllDevices\<close>; \<open>sigterm\<close> the pids \<open>kill()\<close> signalled;
  \<open>crashed\<close> the uncaught exception that ended the process, if any.
\<close>

record runtime = btPresence +
  emitted :: "(event \<times> string list) list"
  children :: "(nat \<times> command \<times> listeners) list"
  nextPid :: nat
  pendingTimers :: "(nat \<times> int) list"
  nextTimer :: nat
  sigterm :: "nat list"
  crashed :: "fatal option"

text \<open>The object after \<open>new btPresence()\<close>, in a host that has spawned nothing yet.\<close>

definition new_btPresence :: runtime where
  "new_btPresence =
     \<lparr>btDevicesToPing = [], btDevicesPresent = [], scanIntervalSecs = 15,
      isL2PingAvailable = False, timer = None, reportFirstResult = True,
      runningPings = [], l2pingOptions = \<lparr>count = Num 1, timeoutSecs = Num 5\<rparr>,
      emitted = [], children = [], nextPid = 0, pendingTimers = [], nextTimer = 0,
      sigterm = [], crashed = None\<rparr>"

subsection \<open>The lodash functions the class calls\<close>

text \<open>\<open>_.toLower\<close> on the ASCII letters of a MAC address; other characters stay.\<close>

definition toLower_char :: "char \<Rightarrow> char" where
  "toLower_char c =
     (if (65::nat) \<le> of_char c \<and> of_char c \<le> (90::nat)
      then char_of (of_char c + (32::nat)) else c)"

definition toLower :: "string \<Rightarrow> string" where
  "toLower s = map toLower_char s"

text \<open>
  \<open>_.uniq\<close> walks the array and pushes a value onto the result unless the result
  already holds it: the first occurrence of each value stays, in order.
\<close>

fun baseUniq :: "'a list \<Rightarrow> 'a list \<Rightarrow> 'a list" where
  "baseUniq result [] = result"
| "baseUniq result (x # xs) =
     baseUniq (if x \<in> set result then result else result @ [x]) xs"

definition uniq :: "'a list \<Rightarrow> 'a list" where
  "uniq xs = baseUniq [] xs"

text \<open>\<open>_.pullAll(array, values)\<close> and \<open>_.pull(array, value)\<close> remove every occurrence.\<close>

definition pullAll :: "'a list \<Rightarrow> 'a list \<Rightarrow> 'a list" where
  "pullAll array vals = filter (\<lambda>x. x \<notin> set vals) array"

definition pull :: "'a list \<Rightarrow> 'a \<Rightarrow> 'a list" where
  "pull array v = filter (\<lambda>x. x \<noteq> v) array"

subsection \<open>Device registry\<close>

text \<open>\<open>addDevices\<close> and \<open>removeDevices\<close> test their argument for \<open>undefined\<close> (\<open>None\<close>).\<close>

definition addDevices :: "string list option \<Rightarrow> runtime \<Rightarrow> runtime" where
  "addDevices btMacAddressArray w =
     (case btMacAddressArray of
        None \<Rightarrow> w
      | Some arr \<Rightarrow>
          (let macsLowerCase = map toLower arr
           in w\<lparr>btDevicesToPing := uniq (btDevicesToPing w @ macsLowerCase)\<rparr>))"

definition removeDevices :: "string list option \<Rightarrow> runtime \<Rightarrow> runtime" where
  "removeDevices btMacAddressArray w =
     (case btMacAddressArray of
        None \<Rightarrow> w
      | Some arr \<Rightarrow>
          (let macsLowerCase = map toLower arr
           in w\<lparr>btDevicesToPing := uniq (pullAll (btDevicesToPing w) macsLowerCase)\<rparr>))"

definition getDevices :: "runtime \<Rightarrow> string list" where
  "getDevices w = btDevicesToPing w"

definition setDevices :: "string list \<Rightarrow> runtime \<Rightarrow> runtime" where
  "setDevices btMacAddressArray w =
     (let macsLowerCase = map toLower btMacAddressArray
      in w\<lparr>btDevicesToPing := uniq macsLowerCase\<rparr>)"

subsection \<open>Probe options and scan interval\<close>

definition getPingOptions :: "runtime \<Rightarrow> L2pingOptions" where
  "getPingOptions w = l2pingOptions w"

definition setPingOptions :: "L2pingOptions \<Rightarrow> runtime \<Rightarrow> runtime" where
  "setPingOptions options w =
     (let newOptions =
        \<lparr>count = (if truthy (count options) then count options else Num 1),
         timeoutSecs = (if truthy (timeoutSecs options) then timeoutSecs options else Num 5)\<rparr>
      in w\<lparr>l2pingOptions := newOptions\<rparr>)"

definition getIntervalSeconds :: "runtime \<Rightarrow> int" where
  "getIntervalSeconds w = scanIntervalSecs w"

definition setIntervalSeconds :: "int option \<Rightarrow> runtime \<Rightarrow> runtime" where
  "setIntervalSeconds secs w =
     (case secs of None \<Rightarrow> w | Some n \<Rightarrow> w\<lparr>scanIntervalSecs := n\<rparr>)"

subsection \<open>Presence aggregator\<close>

text \<open>\<open>this.emit(name, arg)\<close>: the listeners run now, on the object as it is now.\<close>

definition emit :: "event \<Rightarrow> runtime \<Rightarrow> runtime" where
  "emit e w = w\<lparr>emitted := emitted w @ [(e, btDevicesPresent w)]\<rparr>"

definition onPingResult :: "PingResult \<Rightarrow> runtime \<Rightarrow> runtime" where
  "onPingResult result w =
     (let devicesPresentAtLastCheck = (length (btDevicesPresent w) > 0);
          w1 = emit (PingResultEv result) w;
          w2 = (if isPresent result
                then w1\<lparr>btDevicesPresent := uniq (btDevicesPresent w1 @ [address result])\<rparr>
                else w1\<lparr>btDevicesPresent := pull (btDevicesPresent w1) (address result)\<rparr>);
          w3 = (if length (btDevicesPresent w2) > 0
                then (if \<not> devicesPresentAtLastCheck \<or> reportFirstResult w2
                      then emit (Present (address result)) w2 else w2)
                else (if devicesPresentAtLastCheck \<or> reportFirstResult w2
                      then emit (NotPresent (address result)) w2 else w2))
      in w3\<lparr>reportFirstResult := False\<rparr>)"

subsection \<open>Probe runner and probe pool\<close>

text \<open>
  \<open>spawn\<close> starts a process with a fresh pid and the class registers its listeners on
  it. \<open>pingBluetoothDevice\<close> also pushes the handle onto \<open>runningPings\<close>.
\<close>

definition spawn :: "command \<Rightarrow> listeners \<Rightarrow> runtime \<Rightarrow> runtime" where
  "spawn cmd ls w =
     w\<lparr>children := children w @ [(nextPid w, cmd, ls)], nextPid := Suc (nextPid w)\<rparr>"

definition pingBluetoothDevice :: "string \<Rightarrow> callback \<Rightarrow> runtime \<Rightarrow> runtime" where
  "pingBluetoothDevice macAddress cb w =
     (let process = \<lparr>pid = nextPid w, killed = False, exited = False\<rparr>;
          w1 = spawn (L2ping (count (l2pingOptions w)) (timeoutSecs (l2pingOptions w)) macAddress)
                 (PingListeners macAddress cb) w
      in w1\<lparr>runningPings := runningPings w1 @ [process]\<rparr>)"

text \<open>The listeners of a probe: error, stdout data, stderr data, close.\<close>

definition ping_onError :: "runtime \<Rightarrow> fatal \<times> runtime + runtime" where
  "ping_onError w = Inl (RunError, w)"

definition ping_onStdout :: "string \<Rightarrow> callback \<Rightarrow> runtime \<Rightarrow> runtime" where
  "ping_onStdout macAddress cb w =
     (case cb of
        NoCallback \<Rightarrow> w
      | OnPingResult \<Rightarrow> onPingResult \<lparr>address = macAddress, isPresent = True\<rparr> w)"

definition ping_onStderr :: "string \<Rightarrow> callback \<Rightarrow> runtime \<Rightarrow> runtime" where
  "ping_onStderr macAddress cb w =
     (case cb of
        NoCallback \<Rightarrow> w
      | OnPingResult \<Rightarrow> onPingResult \<lparr>address = macAddress, isPresent = False\<rparr> w)"

definition ping_onClose :: "nat \<Rightarrow> runtime \<Rightarrow> runtime" where
  "ping_onClose process_pid w =
     w\<lparr>runningPings := filter (\<lambda>p. \<not> (pid p = process_pid)) (runningPings w)\<rparr>"

subsection \<open>Scan scheduler and availability gate\<close>

definition setTimeout :: "int \<Rightarrow> runtime \<Rightarrow> nat \<times> runtime" where
  "setTimeout ms w =
     (nextTimer w,
      w\<lparr>pendingTimers := pendingTimers w @ [(nextTimer w, ms)], nextTimer := Suc (nextTimer w)\<rparr>)"

definition clearTimeout :: "nat \<Rightarrow> runtime \<Rightarrow> runtime" where
  "clearTimeout t w = w\<lparr>pendingTimers := filter (\<lambda>(h, ms). h \<noteq> t) (pendingTimers w)\<rparr>"

definition scanForAllDevices :: "runtime \<Rightarrow> runtime" where
  "scanForAllDevices w =
     (let w1 = (if length (btDevicesToPing w) \<le> 0 then w
                else fold (\<lambda>macAddress. pingBluetoothDevice macAddress OnPingResult)
                       (btDevicesToPing w) w);
          (t, w2) = setTimeout (scanIntervalSecs w1 * 1000) w1
      in w2\<lparr>timer := Some t\<rparr>)"

definition call_next :: "continuation \<Rightarrow> runtime \<Rightarrow> runtime" where
  "call_next next w = (case next of NoNext \<Rightarrow> w | ScanForAllDevices \<Rightarrow> scanForAllDevices w)"

definition checkForL2Ping :: "continuation \<Rightarrow> runtime \<Rightarrow> runtime" where
  "checkForL2Ping next w = spawn Which_l2ping (CheckListeners next) w"

text \<open>
  The listeners of the lookup process. The exit code is \<open>None\<close> for \<open>null\<close> (the process
  ended on a signal). A listener either returns the new state or throws.
\<close>

definition check_onError :: "runtime \<Rightarrow> fatal \<times> runtime + runtime" where
  "check_onError w = Inl (LocateError, w)"

definition check_onExit ::
  "continuation \<Rightarrow> int option \<Rightarrow> runtime \<Rightarrow> fatal \<times> runtime + runtime" where
  "check_onExit next code w =
     (let w1 = w\<lparr>isL2PingAvailable := (if code = Some 0 then True else False)\<rparr>
      in if isL2PingAvailable w1 then Inr (call_next next w1) else Inl (NotInstalled, w1))"

definition start :: "bool option \<Rightarrow> runtime \<Rightarrow> runtime" where
  "start reportFirstResult_arg w =
     (let w1 = (case reportFirstResult_arg of
                  None \<Rightarrow> w
                | Some b \<Rightarrow> w\<lparr>reportFirstResult := b\<rparr>)
      in if isL2PingAvailable w1 then scanForAllDevices w1
         else checkForL2Ping ScanForAllDevices w1)"

text \<open>
  \<open>p.kill()\<close> sends SIGTERM to the process and, the signal sent, sets the handle's
  \<open>killed\<close> flag. On a handle whose process has exited it sends nothing, returns
  false and leaves the flag as it is.
\<close>

definition kill :: "ChildProcess \<Rightarrow> ChildProcess" where
  "kill p = (if exited p then p else p\<lparr>killed := True\<rparr>)"

definition stop :: "runtime \<Rightarrow> runtime" where
  "stop w =
     (case timer w of
        None \<Rightarrow> w
      | Some t \<Rightarrow>
          (let w1 = clearTimeout t w
           in w1\<lparr>runningPings := map (\<lambda>p. if \<not> killed p then kill p else p) (runningPings w1),
                 sigterm := sigterm w1
                   @ map pid (filter (\<lambda>p. \<not> killed p \<and> \<not> exited p) (runningPings w1))\<rparr>))"

subsection \<open>The event loop\<close>

text \<open>
  What the host delivers to the class: an event of a spawned process, or a timeout that
  fires. A stimulus for a process the class did not spawn, or for a timeout that is not
  armed, finds no listener.
\<close>

datatype stimulus =
    ProcError nat
  | ProcExit nat "int option"
  | StdoutData nat
  | StderrData nat
  | ProcClose nat
  | TimerFire nat

text \<open>
  The exit of a probe has no listener in the class; the host marks the handle, which
  is in \<open>runningPings\<close> until the close event.
\<close>

definition mark_exited :: "nat \<Rightarrow> runtime \<Rightarrow> runtime" where
  "mark_exited p w =
     w\<lparr>runningPings := map (\<lambda>q. if pid q = p then q\<lparr>exited := True\<rparr> else q) (runningPings w)\<rparr>"

fun handle :: "stimulus \<Rightarrow> runtime \<Rightarrow> fatal \<times> runtime + runtime" where
  "handle (ProcError p) w =
     (case map_of (children w) p of
        Some (cmd, CheckListeners next) \<Rightarrow> check_onError w
      | Some (cmd, PingListeners macAddress cb) \<Rightarrow> ping_onError w
      | None \<Rightarrow> Inr w)"
| "handle (ProcExit p code) w =
     (case map_of (children w) p of
        Some (cmd, CheckListeners next) \<Rightarrow> check_onExit next code w
      | Some (cmd, PingListeners macAddress cb) \<Rightarrow> Inr (mark_exited p w)
      | None \<Rightarrow> Inr w)"
| "handle (StdoutData p) w =
     (case map_of (children w) p of
        Some (cmd, PingListeners macAddress cb) \<Rightarrow> Inr (ping_onStdout macAddress cb w)
      | _ \<Rightarrow> Inr w)"
| "handle (StderrData p) w =
     (case map_of (children w) p of
        Some (cmd, PingListeners macAddress cb) \<Rightarrow> Inr (ping_onStderr macAddress cb w)
      | _ \<Rightarrow> Inr w)"
| "handle (ProcClose p) w =
     (case map_of (children w) p of
        Some (cmd, PingListeners macAddress cb) \<Rightarrow> Inr (ping_onClose p w)
      | _ \<Rightarrow> Inr w)"
| "handle (TimerFire t) w =
     (if t \<in> fst ` set (pendingTimers w)
      then Inr (scanForAllDevices (clearTimeout t w))
      else Inr w)"

text \<open>
  One turn of the loop. A listener that throws returns the exception with the state it
  had reached; the exception ends the process, and from then on nothing runs.
\<close>

definition deliver :: "stimulus \<Rightarrow> runtime \<Rightarrow> runtime" where
  "deliver st w =
     (if crashed w \<noteq> None then w
      else (case handle st w of
              Inl (e, w') \<Rightarrow> w'\<lparr>crashed := Some e\<rparr>
            | Inr w' \<Rightarrow> w'))"

definition run :: "stimulus list \<Rightarrow> runtime \<Rightarrow> runtime" where
  "run sts w = fold deliver sts w"

text \<open>The \<open>ping-result\<close> events in a list of emissions, in order.\<close>

fun reports :: "(event \<times> string list) list \<Rightarrow> PingResult list" where
  "reports [] = []"
| "reports ((PingResultEv r, seen) # es) = r # reports es"
| "reports (e # es) = reports es"


subsection \<open>States the class can be in\<close>

text \<open>
  \<open>is_probe w q\<close>: process \<open>q\<close> was spawned by \<open>pingBluetoothDevice\<close>. In every state
  the class reaches, each handle in \<open>runningPings\<close> is such a process
  (\<open>pool_tracked\<close>) and every pid in use is below the next one (\<open>pids_fresh\<close>); the
  reachable states are those produced from a new object by calls of the public methods
  and by turns of the event loop.
\<close>

definition is_probe :: "runtime \<Rightarrow> nat \<Rightarrow> bool" where
  "is_probe w q =
     (case map_of (children w) q of
        Some (cmd, PingListeners macAddress cb) \<Rightarrow> True
      | _ \<Rightarrow> False)"

definition pool_tracked :: "runtime \<Rightarrow> bool" where
  "pool_tracked w = list_all (\<lambda>p. is_probe w (pid p)) (runningPings w)"

definition pids_fresh :: "runtime \<Rightarrow> bool" where
  "pids_fresh w = list_all (\<lambda>c. fst c < nextPid w) (children w)"

definition host_ok :: "runtime \<Rightarrow> bool" where
  "host_ok w = (pids_fresh w \<and> pool_tracked w)"

inductive reachable :: "runtime \<Rightarrow> bool" where
  new: "reachable new_btPresence"
| addDevices: "reachable w \<Longrightarrow> reachable (addDevices a w)"
| removeDevices: "reachable w \<Longrightarrow> reachable (removeDevices a w)"
| setDevices: "reachable w \<Longrightarrow> reachable (setDevices X w)"
| setPingOptions: "reachable w \<Longrightarrow> reachable (setPingOptions options w)"
| setIntervalSeconds: "reachable w \<Longrightarrow> reachable (setIntervalSeconds secs w)"
| start: "reachable w \<Longrightarrow> reachable (start r w)"
| stop: "reachable w \<Longrightarrow> reachable (stop w)"
| onPingResult: "reachable w \<Longrightarrow> reachable (onPingResult res w)"
| deliver: "reachable w \<Longrightarrow> reachable (deliver st w)"

section \<open>Properties\<close>

subsection \<open>Auxiliary facts\<close>

lemma set_baseUniq: "set (baseUniq result xs) = set result \<union> set xs"
  by (induction xs arbitrary: result) auto

lemma distinct_baseUniq: "distinct result \<Longrightarrow> distinct (baseUniq result xs)"
  by (induction xs arbitrary: result) auto

lemma set_uniq: "set (uniq xs) = set xs"
  by (simp add: uniq_def set_baseUniq)

lemma distinct_uniq: "distinct (uniq xs)"
  by (simp add: uniq_def distinct_baseUniq)

lemma uniq_singleton: "uniq [x] = [x]"
  by (simp add: uniq_def)

lemma reports_append: "reports (xs @ ys) = reports xs @ reports ys"
  by (induction xs rule: reports.induct) auto

lemma onPingResult_host:
  "children (onPingResult r w) = children w \<and> crashed (onPingResult r w) = crashed w"
  by (simp add: onPingResult_def emit_def Let_def)

lemma onPingResult_reports:
  "reports (emitted (onPingResult r w)) = reports (emitted w) @ [r]"
  by (simp add: onPingResult_def emit_def Let_def reports_append)

lemma deliver_data:
  assumes "map_of (children w) p = Some (cmd, PingListeners macAddress OnPingResult)"
    and "crashed w = None"
  shows "deliver (StdoutData p) w = onPingResult \<lparr>address = macAddress, isPresent = True\<rparr> w"
    and "deliver (StderrData p) w = onPingResult \<lparr>address = macAddress, isPresent = False\<rparr> w"
  using assms by (simp_all add: deliver_def ping_onStdout_def ping_onStderr_def)

lemma run_Cons: "run (st # sts) w = run sts (deliver st w)"
  by (simp add: run_def)

lemma run_crashed: "crashed w \<noteq> None \<Longrightarrow> run sts w = w"
  by (induction sts) (simp_all add: run_def deliver_def)


lemma fold_ping_frame:
  "let v = fold (\<lambda>macAddress. pingBluetoothDevice macAddress cb) ms w
   in nextTimer v = nextTimer w \<and> pendingTimers v = pendingTimers w
      \<and> scanIntervalSecs v = scanIntervalSecs w
      \<and> isL2PingAvailable v = isL2PingAvailable w
      \<and> length (runningPings v) = length (runningPings w) + length ms
      \<and> filter (\<lambda>c. fst (snd c) = Which_l2ping) (children v)
          = filter (\<lambda>c. fst (snd c) = Which_l2ping) (children w)"
  by (induction ms arbitrary: w) (simp_all add: Let_def pingBluetoothDevice_def spawn_def)

lemma scan_frame:
  "timer (scanForAllDevices w) = Some (nextTimer w)
   \<and> isL2PingAvailable (scanForAllDevices w) = isL2PingAvailable w
   \<and> pendingTimers (scanForAllDevices w) = pendingTimers w @ [(nextTimer w, scanIntervalSecs w * 1000)]
   \<and> length (runningPings (scanForAllDevices w)) = length (runningPings w) + length (btDevicesToPing w)
   \<and> filter (\<lambda>c. fst (snd c) = Which_l2ping) (children (scanForAllDevices w))
       = filter (\<lambda>c. fst (snd c) = Which_l2ping) (children w)"
  using fold_ping_frame [of OnPingResult "btDevicesToPing w" w]
  by (simp add: scanForAllDevices_def setTimeout_def Let_def)

lemma start_available:
  "isL2PingAvailable w \<Longrightarrow>
   start r w = scanForAllDevices (case r of None \<Rightarrow> w | Some b \<Rightarrow> w\<lparr>reportFirstResult := b\<rparr>)"
  by (cases r) (simp_all add: start_def)

lemma start_unavailable:
  "\<not> isL2PingAvailable w \<Longrightarrow>
   start r w = (case r of None \<Rightarrow> w | Some b \<Rightarrow> w\<lparr>reportFirstResult := b\<rparr>)
     \<lparr>children := children w @ [(nextPid w, Which_l2ping, CheckListeners ScanForAllDevices)],
      nextPid := Suc (nextPid w)\<rparr>"
  by (cases r) (simp_all add: start_def checkForL2Ping_def spawn_def)

lemma mark_exited_host:
  "children (mark_exited p w) = children w \<and> crashed (mark_exited p w) = crashed w
   \<and> emitted (mark_exited p w) = emitted w \<and> pendingTimers (mark_exited p w) = pendingTimers w
   \<and> map pid (runningPings (mark_exited p w)) = map pid (runningPings w)"
  by (simp add: mark_exited_def)

lemma ping_onClose_host:
  "children (ping_onClose p w) = children w \<and> crashed (ping_onClose p w) = crashed w
   \<and> emitted (ping_onClose p w) = emitted w \<and> pendingTimers (ping_onClose p w) = pendingTimers w"
  by (simp add: ping_onClose_def)


lemma deliver_probe:
  assumes "map_of (children w) p = Some (cmd, PingListeners macAddress OnPingResult)"
    and "crashed w = None"
  shows "deliver (ProcClose p) w = ping_onClose p w"
    and "deliver (ProcExit p code) w = mark_exited p w"
  using assms by (simp_all add: deliver_def)







lemma is_probe_iff:
  "is_probe w q \<longleftrightarrow> (\<exists>cmd macAddress cb. map_of (children w) q = Some (cmd, PingListeners macAddress cb))"
  by (simp add: is_probe_def split: option.splits listeners.splits)

lemma host_ok_iff:
  "host_ok w \<longleftrightarrow>
     (\<forall>q \<in> fst ` set (children w). q < nextPid w)
      \<and> (\<forall>p \<in> set (runningPings w). \<exists>cmd macAddress cb.
            map_of (children w) (pid p) = Some (cmd, PingListeners macAddress cb))"
  by (simp add: host_ok_def pids_fresh_def pool_tracked_def list_all_iff is_probe_iff)

lemma map_of_fresh: "\<forall>q \<in> fst ` set xs. q < (n::nat) \<Longrightarrow> map_of xs n = None"
  by (induction xs) auto

lemma host_ok_new: "host_ok new_btPresence"
  by (simp add: host_ok_iff new_btPresence_def)

lemma spawn_children:
  assumes "host_ok w"
  shows "map_of (children (spawn cmd ls w)) (nextPid w) = Some (cmd, ls)"
    and "map_of (children w) k = Some v \<Longrightarrow> map_of (children (spawn cmd ls w)) k = Some v"
    and "\<forall>q \<in> fst ` set (children (spawn cmd ls w)). q < nextPid (spawn cmd ls w)"
proof -
  from assms have fresh: "map_of (children w) (nextPid w) = None"
    by (simp add: host_ok_iff map_of_fresh)
  then show "map_of (children (spawn cmd ls w)) (nextPid w) = Some (cmd, ls)"
    by (simp add: spawn_def map_add_def)
  show "map_of (children w) k = Some v \<Longrightarrow> map_of (children (spawn cmd ls w)) k = Some v"
    by (simp add: spawn_def map_add_def)
  from assms show "\<forall>q \<in> fst ` set (children (spawn cmd ls w)). q < nextPid (spawn cmd ls w)"
    by (auto simp: host_ok_iff spawn_def less_Suc_eq)
qed

lemma host_ok_spawn:
  assumes "host_ok w"
  shows "host_ok (spawn cmd ls w)"
proof -
  from assms have tr: "\<forall>p \<in> set (runningPings w). \<exists>c m cb.
      map_of (children w) (pid p) = Some (c, PingListeners m cb)"
    by (simp add: host_ok_iff)
  have "\<exists>c m cb. map_of (children (spawn cmd ls w)) (pid p) = Some (c, PingListeners m cb)"
    if "p \<in> set (runningPings (spawn cmd ls w))" for p
  proof -
    from that have "p \<in> set (runningPings w)" by (simp add: spawn_def)
    with tr obtain c m cb where "map_of (children w) (pid p) = Some (c, PingListeners m cb)"
      by blast
    then have "map_of (children (spawn cmd ls w)) (pid p) = Some (c, PingListeners m cb)"
      by (rule spawn_children(2) [OF assms])
    then show ?thesis by blast
  qed
  with spawn_children(3) [OF assms, of cmd ls] show ?thesis
    by (simp add: host_ok_iff)
qed

lemma host_ok_ping:
  assumes "host_ok w"
  shows "host_ok (pingBluetoothDevice macAddress cb w)"
proof -
  let ?cmd = "L2ping (count (l2pingOptions w)) (timeoutSecs (l2pingOptions w)) macAddress"
  let ?w1 = "spawn ?cmd (PingListeners macAddress cb) w"
  have eq: "pingBluetoothDevice macAddress cb w
      = ?w1\<lparr>runningPings := runningPings ?w1 @ [\<lparr>pid = nextPid w, killed = False, exited = False\<rparr>]\<rparr>"
    by (simp add: pingBluetoothDevice_def Let_def)
  have 1: "host_ok ?w1" by (rule host_ok_spawn [OF assms])
  have 2: "map_of (children ?w1) (nextPid w) = Some (?cmd, PingListeners macAddress cb)"
    by (rule spawn_children(1) [OF assms])
  show ?thesis
    unfolding eq using 1 2 by (auto simp: host_ok_iff)
qed

lemma host_ok_fold:
  "host_ok w \<Longrightarrow> host_ok (fold (\<lambda>macAddress. pingBluetoothDevice macAddress cb) ms w)"
  by (induction ms arbitrary: w) (simp_all add: host_ok_ping)

lemma host_ok_same_children:
  assumes c: "children v = children w" and n: "nextPid v = nextPid w"
    and sub: "pid ` set (runningPings v) \<subseteq> pid ` set (runningPings w)"
    and a: "host_ok w"
  shows "host_ok v"
proof -
  from a have tr: "\<forall>p \<in> set (runningPings w). \<exists>c m cb.
      map_of (children w) (pid p) = Some (c, PingListeners m cb)"
    and fr: "\<forall>q \<in> fst ` set (children w). q < nextPid w"
    by (simp_all add: host_ok_iff)
  have "\<exists>c m cb. map_of (children v) (pid p) = Some (c, PingListeners m cb)"
    if "p \<in> set (runningPings v)" for p
  proof -
    from that sub have "pid p \<in> pid ` set (runningPings w)" by blast
    then obtain p' where p': "p' \<in> set (runningPings w)" "pid p = pid p'" by blast
    from tr p'(1) obtain c' m cb where "map_of (children w) (pid p') = Some (c', PingListeners m cb)"
      by blast
    then show ?thesis by (simp add: c p'(2))
  qed
  with fr show ?thesis by (simp add: host_ok_iff c n)
qed

lemma host_ok_scan: "host_ok w \<Longrightarrow> host_ok (scanForAllDevices w)"
proof -
  assume a: "host_ok w"
  let ?w1 = "if length (btDevicesToPing w) \<le> 0 then w
             else fold (\<lambda>macAddress. pingBluetoothDevice macAddress OnPingResult) (btDevicesToPing w) w"
  have 1: "host_ok ?w1" using a by (simp add: host_ok_fold)
  have "scanForAllDevices w = ?w1\<lparr>pendingTimers := pendingTimers ?w1 @ [(nextTimer ?w1, scanIntervalSecs ?w1 * 1000)],
        nextTimer := Suc (nextTimer ?w1), timer := Some (nextTimer ?w1)\<rparr>"
    by (simp add: scanForAllDevices_def setTimeout_def Let_def)
  then show ?thesis using host_ok_same_children [OF _ _ _ 1] by simp
qed

lemma host_ok_onPingResult:
  assumes a: "host_ok w"
  shows "host_ok (onPingResult r w)"
  by (rule host_ok_same_children [OF _ _ _ a]) (simp_all add: onPingResult_def emit_def Let_def)

lemma host_ok_stop:
  assumes a: "host_ok w"
  shows "host_ok (stop w)"
  by (rule host_ok_same_children [OF _ _ _ a])
     (auto simp: stop_def clearTimeout_def Let_def kill_def image_iff split: option.splits if_splits)

lemma host_ok_start: "host_ok w \<Longrightarrow> host_ok (start r w)"
proof -
  assume a: "host_ok w"
  let ?w1 = "case r of None \<Rightarrow> w | Some b \<Rightarrow> w\<lparr>reportFirstResult := b\<rparr>"
  have 1: "host_ok ?w1"
    by (rule host_ok_same_children [OF _ _ _ a]) (auto split: option.splits)
  have 2: "host_ok (checkForL2Ping ScanForAllDevices ?w1)"
    using 1 by (simp add: checkForL2Ping_def host_ok_spawn)
  show ?thesis
    using 1 2 by (simp add: start_def Let_def host_ok_scan)
qed

lemma host_ok_deliver: "host_ok w \<Longrightarrow> host_ok (deliver st w)"
proof (cases "crashed w = None")
  case False
  assume "host_ok w"
  with False show ?thesis by (simp add: deliver_def)
next
  case True
  assume a: "host_ok w"
  have c: "host_ok (w\<lparr>crashed := e\<rparr>)" "host_ok (w\<lparr>isL2PingAvailable := b, crashed := e\<rparr>)" for e b
    by (rule host_ok_same_children [OF _ _ _ a]; simp)+
  have t: "host_ok (clearTimeout t w)" for t
    by (rule host_ok_same_children [OF _ _ _ a]) (simp_all add: clearTimeout_def)
  have av: "host_ok (w\<lparr>isL2PingAvailable := b\<rparr>)" for b
    by (rule host_ok_same_children [OF _ _ _ a]) simp_all
  have cl: "host_ok (ping_onClose q w)" "host_ok (mark_exited q w)" for q
    by (rule host_ok_same_children [OF _ _ _ a]; auto simp: ping_onClose_def mark_exited_def)+
  show ?thesis
    using True a c cl av
    by (cases st)
       (auto simp: deliver_def check_onError_def ping_onError_def check_onExit_def call_next_def Let_def
          ping_onStdout_def ping_onStderr_def host_ok_onPingResult
          host_ok_scan [OF t] host_ok_scan [OF av]
          split: option.splits listeners.splits continuation.splits callback.splits)
qed

lemma host_ok_run: "host_ok w \<Longrightarrow> host_ok (run sts w)"
  unfolding run_def by (induction sts arbitrary: w) (simp_all add: host_ok_deliver)


lemma host_ok_registry:
  assumes a: "host_ok w"
  shows "host_ok (addDevices arr w)" and "host_ok (removeDevices arr w)"
    and "host_ok (setDevices X w)" and "host_ok (setPingOptions options w)"
    and "host_ok (setIntervalSeconds secs w)"
  by (rule host_ok_same_children [OF _ _ _ a];
      simp add: addDevices_def removeDevices_def setDevices_def setPingOptions_def
        setIntervalSeconds_def Let_def split: option.splits)+

lemma reachable_host_ok: "reachable w \<Longrightarrow> host_ok w"
  by (induction rule: reachable.induct)
     (simp_all add: host_ok_new host_ok_registry host_ok_start host_ok_stop
        host_ok_onPingResult host_ok_deliver)

lemma reachable_run: "reachable w \<Longrightarrow> reachable (run sts w)"
  unfolding run_def by (induction sts arbitrary: w) (simp_all add: reachable.deliver)

lemma reachable_fresh_pid: "reachable w \<Longrightarrow> map_of (children w) (nextPid w) = None"
  by (drule reachable_host_ok) (simp add: host_ok_iff map_of_fresh)

subsection \<open>Presence aggregator\<close>

text \<open>
  C1. With \<open>reportFirstResult\<close> true and the Presence Set empty, the result
  \<open>(addrA, false)\<close> emits \<open>ping-result\<close> and then \<open>not-present(addrA)\<close>, although the
  Presence Set is the same before and after; the latch is then false, and a following
  negative result for \<open>addrB\<close> emits its \<open>ping-result\<close> and no notification.
\<close>

theorem first_result_latch:
  "let w0 = w\<lparr>btDevicesPresent := [], reportFirstResult := True\<rparr>;
       w1 = onPingResult \<lparr>address = addrA, isPresent = False\<rparr> w0;
       w2 = onPingResult \<lparr>address = addrB, isPresent = False\<rparr> w1
   in emitted w1 = emitted w @ [(PingResultEv \<lparr>address = addrA, isPresent = False\<rparr>, []),
                                (NotPresent addrA, [])]
      \<and> btDevicesPresent w1 = btDevicesPresent w0
      \<and> reportFirstResult w1 = False
      \<and> emitted w2 = emitted w1 @ [(PingResultEv \<lparr>address = addrB, isPresent = False\<rparr>, [])]
      \<and> btDevicesPresent w2 = []"
  by (simp add: onPingResult_def emit_def pull_def Let_def)

theorem first_result_latch_witness:
  "emitted (onPingResult \<lparr>address = ''aa:bb'', isPresent = False\<rparr> new_btPresence)
     = [(PingResultEv \<lparr>address = ''aa:bb'', isPresent = False\<rparr>, []), (NotPresent ''aa:bb'', [])]
   \<and> emitted (onPingResult \<lparr>address = ''cc:dd'', isPresent = False\<rparr>
        (onPingResult \<lparr>address = ''aa:bb'', isPresent = False\<rparr> new_btPresence))
     = [(PingResultEv \<lparr>address = ''aa:bb'', isPresent = False\<rparr>, []), (NotPresent ''aa:bb'', []),
        (PingResultEv \<lparr>address = ''cc:dd'', isPresent = False\<rparr>, [])]"
proof -
  have new: "new_btPresence\<lparr>btDevicesPresent := [], reportFirstResult := True\<rparr> = new_btPresence"
    by (simp add: new_btPresence_def)
  have log: "emitted new_btPresence = []"
    by (simp add: new_btPresence_def)
  show ?thesis
    using first_result_latch [of new_btPresence "''aa:bb''" "''cc:dd''"]
    unfolding Let_def new log by simp
qed

text \<open>
  C2. With the latch consumed and the Presence Set empty, \<open>(addrA, true)\<close> emits
  \<open>ping-result\<close> and \<open>present(addrA)\<close>; a further \<open>(addrB, true)\<close>, with \<open>addrA\<close> in
  the set, emits its \<open>ping-result\<close> only. For every result \<open>r\<close> and every state \<open>v\<close>,
  the first event \<open>onPingResult\<close> emits is \<open>ping-result(r)\<close>, its listeners find the
  Presence Set as it was before the call, and it is the only \<open>ping-result\<close> of the call.
\<close>

theorem rising_edge:
  "let w0 = w\<lparr>btDevicesPresent := [], reportFirstResult := False\<rparr>;
       w1 = onPingResult \<lparr>address = addrA, isPresent = True\<rparr> w0;
       w2 = onPingResult \<lparr>address = addrB, isPresent = True\<rparr> w1
   in emitted w1 = emitted w @ [(PingResultEv \<lparr>address = addrA, isPresent = True\<rparr>, []),
                                (Present addrA, [addrA])]
      \<and> btDevicesPresent w1 = [addrA]
      \<and> emitted w2 = emitted w1 @ [(PingResultEv \<lparr>address = addrB, isPresent = True\<rparr>, [addrA])]
      \<and> addrA \<in> set (btDevicesPresent w2)
      \<and> take (Suc (length (emitted v))) (emitted (onPingResult r v))
          = emitted v @ [(PingResultEv r, btDevicesPresent v)]
      \<and> reports (emitted (onPingResult r v)) = reports (emitted v) @ [r]"
  by (simp add: onPingResult_def emit_def uniq_def Let_def reports_append)

theorem rising_edge_witness:
  "emitted (onPingResult \<lparr>address = ''cc:dd'', isPresent = True\<rparr>
        (onPingResult \<lparr>address = ''aa:bb'', isPresent = True\<rparr>
           (new_btPresence\<lparr>btDevicesPresent := [], reportFirstResult := False\<rparr>)))
     = [(PingResultEv \<lparr>address = ''aa:bb'', isPresent = True\<rparr>, []), (Present ''aa:bb'', [''aa:bb'']),
        (PingResultEv \<lparr>address = ''cc:dd'', isPresent = True\<rparr>, [''aa:bb''])]"
proof -
  have log: "emitted new_btPresence = []"
    by (simp add: new_btPresence_def)
  show ?thesis
    using rising_edge [of new_btPresence "''aa:bb''" "''cc:dd''"]
    unfolding Let_def log by simp
qed

subsection \<open>Probe runner\<close>

text \<open>
  C3, as the code has it. A probe process \<open>p\<close> spawned for \<open>macAddress\<close> with
  \<open>onPingResult\<close> as its sink reports once for every data event on its standard output
  (\<open>isPresent = true\<close>) or standard error (\<open>isPresent = false\<close>), and its exit and its
  close report nothing: over any sequence of events of the process other than a launch
  error, the reports are those of the data events, one each, in their order. A probe
  that exits and closes without output reports nothing.
\<close>

theorem report_per_data_event:
  "map_of (children w) p = Some (cmd, PingListeners macAddress OnPingResult) \<Longrightarrow>
   crashed w = None \<Longrightarrow>
   set evs \<subseteq> {StdoutData p, StderrData p, ProcClose p} \<union> range (ProcExit p) \<Longrightarrow>
   reports (emitted (run evs w))
     = reports (emitted w)
       @ map (\<lambda>e. \<lparr>address = macAddress, isPresent = (e = StdoutData p)\<rparr>)
           (filter (\<lambda>e. e = StdoutData p \<or> e = StderrData p) evs)"
proof (induction evs arbitrary: w)
  case Nil
  then show ?case by (simp add: run_def)
next
  case (Cons e evs)
  let ?rest = "map (\<lambda>e. \<lparr>address = macAddress, isPresent = (e = StdoutData p)\<rparr>)
           (filter (\<lambda>e. e = StdoutData p \<or> e = StderrData p) evs)"
  from Cons.prems(3) have evs: "set evs \<subseteq> {StdoutData p, StderrData p, ProcClose p} \<union> range (ProcExit p)"
    by simp
  from Cons.prems(3) consider
      (data) "e = StdoutData p \<or> e = StderrData p"
    | (close) "e = ProcClose p"
    | (exit) code where "e = ProcExit p code"
    by auto
  then show ?case
  proof cases
    case data
    let ?r = "\<lparr>address = macAddress, isPresent = (e = StdoutData p)\<rparr>"
    from data Cons.prems(1,2) have step: "deliver e w = onPingResult ?r w"
      by (auto simp: deliver_data)
    have "reports (emitted (run evs (onPingResult ?r w)))
        = reports (emitted (onPingResult ?r w)) @ ?rest"
      using Cons.prems(1,2) evs by (intro Cons.IH) (simp_all add: onPingResult_host)
    with data show ?thesis
      by (auto simp: run_Cons step onPingResult_reports)
  next
    case close
    from Cons.prems(1,2) have step: "deliver e w = ping_onClose p w"
      unfolding close by (rule deliver_probe(1))
    have "reports (emitted (run evs (ping_onClose p w)))
        = reports (emitted (ping_onClose p w)) @ ?rest"
      using Cons.prems(1,2) evs by (intro Cons.IH) (simp_all add: ping_onClose_host)
    with close show ?thesis
      by (simp add: run_Cons step [unfolded close] ping_onClose_host)
  next
    case exit
    from Cons.prems(1,2) have step: "deliver e w = mark_exited p w"
      unfolding exit by (rule deliver_probe(2))
    have "reports (emitted (run evs (mark_exited p w)))
        = reports (emitted (mark_exited p w)) @ ?rest"
      using Cons.prems(1,2) evs by (intro Cons.IH) (simp_all add: mark_exited_host)
    with exit show ?thesis
      by (simp add: run_Cons step [unfolded exit] mark_exited_host)
  qed
qed

text \<open>
  The probe of a scan of one device (pid 1, after the lookup process 0 has exited with
  code 0): two data events around its exit give two reports; exit and close alone
  give none.
\<close>

theorem report_per_data_event_witness:
  "reports (emitted (run [StdoutData 1, ProcExit 1 (Some 0), StderrData 1, ProcClose 1]
       (run [ProcExit 0 (Some 0)] (start None (addDevices (Some [''aa:bb'']) new_btPresence)))))
     = [\<lparr>address = ''aa:bb'', isPresent = True\<rparr>, \<lparr>address = ''aa:bb'', isPresent = False\<rparr>]
   \<and> reports (emitted (run [ProcExit 1 (Some 1), ProcClose 1]
       (run [ProcExit 0 (Some 0)] (start None (addDevices (Some [''aa:bb'']) new_btPresence)))))
     = []"
proof -
  let ?w = "run [ProcExit 0 (Some 0)] (start None (addDevices (Some [''aa:bb'']) new_btPresence))"
  have 1: "map_of (children ?w) 1
      = Some (L2ping (Num 1) (Num 5) ''aa:bb'', PingListeners ''aa:bb'' OnPingResult)"
    by code_simp
  have 2: "crashed ?w = None" by code_simp
  have 3: "set [StdoutData 1, ProcExit 1 (Some 0), StderrData 1, ProcClose 1]
      \<subseteq> {StdoutData 1, StderrData 1, ProcClose 1} \<union> range (ProcExit 1)"
    "set [ProcExit 1 (Some 1), ProcClose 1]
      \<subseteq> {StdoutData 1, StderrData 1, ProcClose 1} \<union> range (ProcExit 1)"
    by simp_all
  have 4: "reports (emitted ?w) = []" by code_simp
  show ?thesis
    using report_per_data_event [OF 1 2 3(1)] report_per_data_event [OF 1 2 3(2)]
    by (simp add: 4)
qed

text \<open>
  C3 as stated fails: the same probe reports twice when its standard output delivers
  two chunks, and not at all when it exits and closes without output.
\<close>

theorem report_count_counterexample:
  "length (reports (emitted (run [StdoutData 1, StdoutData 1, ProcExit 1 (Some 0), ProcClose 1]
       (run [ProcExit 0 (Some 0)] (start None (addDevices (Some [''aa:bb'']) new_btPresence)))))) = 2
   \<and> length (reports (emitted (run [ProcExit 1 (Some 1), ProcClose 1]
       (run [ProcExit 0 (Some 0)] (start None (addDevices (Some [''aa:bb'']) new_btPresence)))))) = 0"
  by code_simp

subsection \<open>Probe options\<close>

text \<open>
  C6. The options stored by \<open>setPingOptions\<close> hold, for each field, the supplied value
  when it is truthy and the default (count 1, timeout 5) when it is \<open>undefined\<close>, \<open>NaN\<close>
  or 0; they do not depend on the options stored before.
\<close>

theorem default_substitution:
  "count (getPingOptions (setPingOptions options w))
     = (case count options of Undefined \<Rightarrow> Num 1 | NaN \<Rightarrow> Num 1
        | Num n \<Rightarrow> if n = 0 then Num 1 else Num n)
   \<and> timeoutSecs (getPingOptions (setPingOptions options w))
     = (case timeoutSecs options of Undefined \<Rightarrow> Num 5 | NaN \<Rightarrow> Num 5
        | Num n \<Rightarrow> if n = 0 then Num 5 else Num n)
   \<and> getPingOptions (setPingOptions options w) = getPingOptions (setPingOptions options w')
   \<and> getPingOptions (setPingOptions \<lparr>count = Num 0, timeoutSecs = Undefined\<rparr> w)
     = \<lparr>count = Num 1, timeoutSecs = Num 5\<rparr>"
  by (simp add: getPingOptions_def setPingOptions_def Let_def split: jsnumber.splits)

text \<open>
  C7, as the code has it. A negative count or timeout is stored as supplied; a zero one
  is falsy and is replaced by the default.
\<close>

theorem negative_stored:
  "(c < 0 \<longrightarrow> count (getPingOptions (setPingOptions \<lparr>count = Num c, timeoutSecs = y\<rparr> w)) = Num c)
   \<and> (t < 0 \<longrightarrow> timeoutSecs (getPingOptions (setPingOptions \<lparr>count = x, timeoutSecs = Num t\<rparr> w)) = Num t)
   \<and> count (getPingOptions (setPingOptions \<lparr>count = Num 0, timeoutSecs = y\<rparr> w)) = Num 1
   \<and> timeoutSecs (getPingOptions (setPingOptions \<lparr>count = x, timeoutSecs = Num 0\<rparr> w)) = Num 5"
  by (simp add: getPingOptions_def setPingOptions_def Let_def)

theorem negative_stored_witness:
  "(-3::int) < 0 \<and> (-1::int) < 0
   \<and> getPingOptions (setPingOptions \<lparr>count = Num (-3), timeoutSecs = Num (-1)\<rparr> new_btPresence)
       = \<lparr>count = Num (-3), timeoutSecs = Num (-1)\<rparr>"
  using negative_stored [of "-3" "Num (-1)" new_btPresence "-1" "Num (-3)"]
  by simp

text \<open>C7 as stated fails: zero values are not stored as supplied.\<close>

theorem zero_not_stored:
  "getPingOptions (setPingOptions \<lparr>count = Num 0, timeoutSecs = Num 0\<rparr> new_btPresence)
     \<noteq> \<lparr>count = Num 0, timeoutSecs = Num 0\<rparr>"
  by (simp add: getPingOptions_def setPingOptions_def Let_def)

subsection \<open>Device registry\<close>

text \<open>
  C8. After \<open>setDevices(X)\<close>, \<open>getDevices()\<close> returns a list without duplicates whose
  elements are the lower-cased elements of \<open>X\<close>, whatever the registry held before;
  \<open>setDevices([A])\<close> after \<open>addDevices([B])\<close> leaves the lower-cased \<open>A\<close> alone.
\<close>

theorem round_trip:
  "set (getDevices (setDevices X w)) = toLower ` set X
   \<and> distinct (getDevices (setDevices X w))
   \<and> getDevices (setDevices X w) = getDevices (setDevices X w')
   \<and> getDevices (setDevices [A] (addDevices (Some [B]) w)) = [toLower A]"
  by (simp add: getDevices_def setDevices_def set_uniq distinct_uniq uniq_singleton)

theorem round_trip_witness:
  "getDevices (setDevices [''AA:bb'', ''aa:BB'', ''0C:1d'', ''Aa:Bb''] new_btPresence)
     = [''aa:bb'', ''0c:1d'']
   \<and> getDevices (setDevices [''AA:01''] (addDevices (Some [''BB:02'']) new_btPresence))
     = [''aa:01'']"
  using round_trip [of "[''AA:bb'', ''aa:BB'', ''0C:1d'', ''Aa:Bb'']" new_btPresence
      new_btPresence "''AA:01''" "''BB:02''"]
  by code_simp

subsection \<open>Scan scheduler\<close>

text \<open>
  C4 fails on the code: \<open>start()\<close> without argument leaves the latch as it is. After a
  first run in which one probe result consumed the latch, and \<open>stop()\<close>, a second
  \<open>start()\<close> finds and leaves the latch false.
\<close>

theorem latch_not_reset:
  "reportFirstResult
     (start None (stop (run [ProcExit 0 (Some 0), StderrData 1]
        (start None (addDevices (Some [''aa:bb'']) new_btPresence))))) = False"
  by code_simp




text \<open>
  C9. When availability is already confirmed, \<open>start()\<close> is the scan itself: no lookup
  process is spawned, a probe is dispatched for every registered device and the timer
  is armed. Otherwise \<open>start()\<close> only spawns the lookup process (no probe, no timeout);
  its exit with code 0 sets \<open>isL2PingAvailable\<close> and runs the scan; its exit with any
  other code (\<open>null\<close> included), or its error event, throws, and whatever the host
  delivers afterwards the state stays as \<open>start()\<close> left it, with the flag false: no
  scan has run.
\<close>

theorem availability_gate:
  "(isL2PingAvailable w \<longrightarrow>
      start r w = scanForAllDevices (case r of None \<Rightarrow> w | Some b \<Rightarrow> w\<lparr>reportFirstResult := b\<rparr>)
      \<and> filter (\<lambda>c. fst (snd c) = Which_l2ping) (children (start r w))
          = filter (\<lambda>c. fst (snd c) = Which_l2ping) (children w)
      \<and> timer (start r w) = Some (nextTimer w)
      \<and> pendingTimers (start r w) = pendingTimers w @ [(nextTimer w, scanIntervalSecs w * 1000)]
      \<and> length (runningPings (start r w)) = length (runningPings w) + length (btDevicesToPing w))
   \<and> (\<not> isL2PingAvailable w \<and> crashed w = None \<and> map_of (children w) (nextPid w) = None \<longrightarrow>
      children (start r w)
        = children w @ [(nextPid w, Which_l2ping, CheckListeners ScanForAllDevices)]
      \<and> pendingTimers (start r w) = pendingTimers w
      \<and> runningPings (start r w) = runningPings w
      \<and> timer (start r w) = timer w
      \<and> deliver (ProcExit (nextPid w) (Some 0)) (start r w)
          = scanForAllDevices ((start r w)\<lparr>isL2PingAvailable := True\<rparr>)
      \<and> isL2PingAvailable (deliver (ProcExit (nextPid w) (Some 0)) (start r w))
      \<and> (code \<noteq> Some 0 \<longrightarrow>
           run (ProcExit (nextPid w) code # sts) (start r w)
             = (start r w)\<lparr>isL2PingAvailable := False, crashed := Some NotInstalled\<rparr>)
      \<and> run (ProcError (nextPid w) # sts) (start r w) = (start r w)\<lparr>crashed := Some LocateError\<rparr>)"
proof (intro conjI impI)
  assume a: "isL2PingAvailable w"
  let ?w1 = "case r of None \<Rightarrow> w | Some b \<Rightarrow> w\<lparr>reportFirstResult := b\<rparr>"
  have f: "children ?w1 = children w" "nextTimer ?w1 = nextTimer w"
    "pendingTimers ?w1 = pendingTimers w" "scanIntervalSecs ?w1 = scanIntervalSecs w"
    "runningPings ?w1 = runningPings w" "btDevicesToPing ?w1 = btDevicesToPing w"
    by (cases r; simp)+
  show s: "start r w = scanForAllDevices ?w1" by (rule start_available [OF a])
  show "filter (\<lambda>c. fst (snd c) = Which_l2ping) (children (start r w))
          = filter (\<lambda>c. fst (snd c) = Which_l2ping) (children w)"
    using scan_frame [of ?w1] by (simp add: s f)
  show "timer (start r w) = Some (nextTimer w)"
    using scan_frame [of ?w1] by (simp add: s f)
  show "pendingTimers (start r w) = pendingTimers w @ [(nextTimer w, scanIntervalSecs w * 1000)]"
    using scan_frame [of ?w1] by (simp add: s f)
  show "length (runningPings (start r w)) = length (runningPings w) + length (btDevicesToPing w)"
    using scan_frame [of ?w1] by (simp add: s f)
next
  assume b: "\<not> isL2PingAvailable w \<and> crashed w = None \<and> map_of (children w) (nextPid w) = None"
  then have na: "\<not> isL2PingAvailable w" and alive: "crashed w = None"
    and fresh: "map_of (children w) (nextPid w) = None" by simp_all
  note s = start_unavailable [OF na]
  show c: "children (start r w)
        = children w @ [(nextPid w, Which_l2ping, CheckListeners ScanForAllDevices)]"
    by (cases r) (simp_all add: s)
  show "pendingTimers (start r w) = pendingTimers w" by (cases r) (simp_all add: s)
  show "runningPings (start r w) = runningPings w" by (cases r) (simp_all add: s)
  show "timer (start r w) = timer w" by (cases r) (simp_all add: s)
  have look: "map_of (children (start r w)) (nextPid w)
      = Some (Which_l2ping, CheckListeners ScanForAllDevices)"
    using fresh by (simp add: c map_add_def)
  have alive': "crashed (start r w) = None"
    using alive by (cases r) (simp_all add: s)
  show ok: "deliver (ProcExit (nextPid w) (Some 0)) (start r w)
          = scanForAllDevices ((start r w)\<lparr>isL2PingAvailable := True\<rparr>)"
    by (simp add: deliver_def look alive' check_onExit_def call_next_def)
  show "isL2PingAvailable (deliver (ProcExit (nextPid w) (Some 0)) (start r w))"
    by (simp add: ok scan_frame)
  show "run (ProcError (nextPid w) # sts) (start r w) = (start r w)\<lparr>crashed := Some LocateError\<rparr>"
    by (simp add: run_Cons deliver_def look alive' check_onError_def run_crashed)
  show "run (ProcExit (nextPid w) code # sts) (start r w)
             = (start r w)\<lparr>isL2PingAvailable := False, crashed := Some NotInstalled\<rparr>"
    if "code \<noteq> Some 0"
    using that by (simp add: run_Cons deliver_def look alive' check_onExit_def run_crashed)
qed


text \<open>
  The first \<open>start()\<close> of a new object, and a \<open>start()\<close> after a first run was stopped.
\<close>

theorem availability_gate_witness:
  "isL2PingAvailable (deliver (ProcExit 0 (Some 0)) (start None new_btPresence))
   \<and> run [ProcExit 0 (Some 1), TimerFire 0] (start None new_btPresence)
       = (start None new_btPresence)\<lparr>isL2PingAvailable := False, crashed := Some NotInstalled\<rparr>
   \<and> run [ProcError 0, TimerFire 0] (start None new_btPresence)
       = (start None new_btPresence)\<lparr>crashed := Some LocateError\<rparr>
   \<and> timer (start None (stop (run [ProcExit 0 (Some 0)]
         (start None (addDevices (Some [''aa:bb'']) new_btPresence))))) = Some 1"
proof -
  let ?v = "stop (run [ProcExit 0 (Some 0)]
         (start None (addDevices (Some [''aa:bb'']) new_btPresence)))"
  have pid0: "nextPid new_btPresence = 0" by (simp add: new_btPresence_def)
  have new: "\<not> isL2PingAvailable new_btPresence \<and> crashed new_btPresence = None
      \<and> map_of (children new_btPresence) 0 = None"
    by (simp add: new_btPresence_def)
  have code: "Some (1::int) \<noteq> Some 0" by simp
  have av: "isL2PingAvailable ?v" by code_simp
  have t1: "nextTimer ?v = 1" by code_simp
  note first = availability_gate [of new_btPresence None "Some 1" "[TimerFire 0]", unfolded pid0]
  note again = availability_gate [of ?v None "Some 1" "[]", unfolded t1]
  from first new code
  have "isL2PingAvailable (deliver (ProcExit 0 (Some 0)) (start None new_btPresence))"
    and "run [ProcExit 0 (Some 1), TimerFire 0] (start None new_btPresence)
       = (start None new_btPresence)\<lparr>isL2PingAvailable := False, crashed := Some NotInstalled\<rparr>"
    and "run [ProcError 0, TimerFire 0] (start None new_btPresence)
       = (start None new_btPresence)\<lparr>crashed := Some LocateError\<rparr>"
    by blast+
  moreover from again av have "timer (start None ?v) = Some 1"
    by blast
  ultimately show ?thesis by blast
qed

text \<open>
  C10. While the scan timer is undefined, \<open>stop()\<close> changes nothing: the object and the
  host (processes, signals sent, timeouts) are as before.
\<close>

theorem stop_before_start:
  "timer w = None \<Longrightarrow> stop w = w"
  by (simp add: stop_def)

theorem stop_before_start_witness:
  "timer new_btPresence = None \<and> stop new_btPresence = new_btPresence
   \<and> sigterm (stop new_btPresence) = []"
  using stop_before_start [of new_btPresence]
  by (simp add: new_btPresence_def)

end
